theory Spec2Isabelle
  imports Main "HOL-Library.Sublist"
begin

section \<open>Strings and JSON values of the request body\<close>

text \<open>
  A JavaScript string is modelled as a \<^typ>\<open>string\<close> whose characters are the code
  units \<open>0..255\<close>. \<open>String.prototype.trim\<close> removes white space and line terminators
  from both ends; in this range they are TAB, LF, VT, FF, CR, SPACE and NBSP.
\<close>

definition is_ws :: "char \<Rightarrow> bool" where
  "is_ws c = (of_char c \<in> {9, 10, 11, 12, 13, 32, 160 :: nat})"

definition trim :: "string \<Rightarrow> string" where
  "trim s = rev (dropWhile is_ws (rev (dropWhile is_ws s)))"

text \<open>\<open>s.includes(t)\<close>: \<open>t\<close> occurs in \<open>s\<close> as a contiguous substring.\<close>

fun str_includes :: "string \<Rightarrow> string \<Rightarrow> bool" where
  "str_includes [] t = (t = [])"
| "str_includes (c # cs) t = (prefix t (c # cs) \<or> str_includes cs t)"

text \<open>
  The values \<open>req.body.url\<close> can hold after \<open>bodyParser.json()\<close>. Of a number only
  whether it is zero matters to the handler.
\<close>

datatype jsval =
    JNull
  | JBool bool
  | JNum int
  | JStr string
  | JArray "jsval list"
  | JObject "(string \<times> jsval) list"

text \<open>JavaScript's ToBoolean on these values.\<close>

fun truthy :: "jsval \<Rightarrow> bool" where
  "truthy JNull = False"
| "truthy (JBool b) = b"
| "truthy (JNum n) = (n \<noteq> 0)"
| "truthy (JStr s) = (s \<noteq> [])"
| "truthy (JArray _) = True"
| "truthy (JObject _) = True"

text \<open>
  The JSON body of \<open>POST /api/shorten\<close>. \<open>None\<close> in \<open>body_url\<close> is an absent field
  (\<open>undefined\<close>). The field \<open>expires_at\<close> is modelled by the instant it denotes, in
  milliseconds since the epoch; \<open>None\<close> stands for an absent, null or otherwise falsy
  value, which \<open>expires_at || null\<close> turns into \<open>null\<close>.
\<close>

record shorten_body =
  body_url :: "jsval option"
  body_expires_at :: "int option"

section \<open>Configuration (server.js, lines 9 and 10)\<close>

record environment =
  env_PORT :: "string option"
  env_BASE_URL :: "string option"

text \<open>\<open>process.env.X || d\<close>: an unset or empty variable gives the default.\<close>

definition or_default :: "string option \<Rightarrow> string \<Rightarrow> string" where
  "or_default v d = (case v of None \<Rightarrow> d | Some s \<Rightarrow> if s = [] then d else s)"

definition PORT :: "environment \<Rightarrow> string" where
  "PORT env = or_default (env_PORT env) ''5000''"

definition BASE_URL :: "environment \<Rightarrow> string" where
  "BASE_URL env = or_default (env_BASE_URL env) (''http://localhost:'' @ PORT env)"

section \<open>URL validation (server.js, isValidUrl)\<close>

text \<open>
  \<open>new URL(string)\<close> is the platform's WHATWG parser; it is a parameter \<open>parses\<close> of
  the model: \<open>parses s\<close> holds when the constructor does not throw on \<open>s\<close>.
\<close>

type_synonym url_parser = "string \<Rightarrow> bool"

definition isValidUrl :: "url_parser \<Rightarrow> string \<Rightarrow> bool" where
  "isValidUrl parses s =
     (if parses s
      then (if str_includes s ''localhost'' \<or> str_includes s ''azurewebsites.net''
            then False else True)
      else False)"

text \<open>
  A set of strings on which the platform's constructor succeeds: \<open>https://\<close>, a host of
  lower-case letters and single dots that begins and ends with a letter, and then
  nothing or a path of lower-case letters, digits, slashes and blanks (the constructor
  percent-encodes a blank of the path and does not throw). It stands for the
  constructor at the concrete inputs of the examples below; \<open>not a url\<close>, on which the
  constructor throws, is outside.
\<close>

definition lower_letter :: "char \<Rightarrow> bool" where
  "lower_letter c = (c \<in> set ''abcdefghijklmnopqrstuvwxyz'')"

fun host_ok :: "string \<Rightarrow> bool" where
  "host_ok [] = False"
| "host_ok [c] = lower_letter c"
| "host_ok (c # d # cs) =
     (lower_letter c \<and> (if d = CHR ''.'' then host_ok cs else host_ok (d # cs)))"

definition path_ok :: "string \<Rightarrow> bool" where
  "path_ok p = (p = [] \<or> (hd p = CHR ''/'' \<and>
      list_all (\<lambda>c. lower_letter c \<or> c \<in> set ''0123456789/ '') p))"

definition simple_https_url :: url_parser where
  "simple_https_url s =
     (prefix ''https://'' s \<and>
      (let rest = drop 8 s
       in host_ok (takeWhile (\<lambda>c. c \<noteq> CHR ''/'') rest) \<and>
          path_ok (dropWhile (\<lambda>c. c \<noteq> CHR ''/'') rest)))"

section \<open>The persistence store and the Link Service\<close>

text \<open>
  Modelled from the spec: the ShortLink record of section 3 (the table is created by
  database.js, which is not among the sources), under the field names of the stats
  reply. Timestamps are milliseconds since the epoch.
\<close>

record row =
  short_code :: string
  original_url :: string
  click_count :: nat
  created_at :: int
  expires_at :: "int option"

text \<open>
  Modelled from the spec: database.js (the connection pool) is not among the sources.
  The store is the table together with the outcomes of its coming round trips: the
  head of \<open>faults\<close> is consumed by the next round trip, \<open>Some cause\<close> makes it fail
  with that cause (unreachable store, query error), \<open>None\<close> or an exhausted list lets
  it succeed.
\<close>

record store =
  rows :: "row list"
  faults :: "string option list"

text \<open>
  Modelled from the spec: one round trip to the store ("each logical operation is a
  single round trip", section 5). It yields the cause when it fails.
\<close>

definition round_trip :: "store \<Rightarrow> string option \<times> store" where
  "round_trip st =
     (case faults st of
        [] \<Rightarrow> (None, st)
      | f # fs \<Rightarrow> (f, st\<lparr>faults := fs\<rparr>))"

text \<open>The next \<open>n\<close> round trips succeed.\<close>

definition quiet :: "nat \<Rightarrow> store \<Rightarrow> bool" where
  "quiet n st = list_all (\<lambda>f. f = None) (take n (faults st))"

text \<open>
  Modelled from the spec: the failures the Link Service raises (section 7);
  \<open>StoreFailure\<close> carries the cause.
\<close>

datatype svc_error = NotFound | Expired int | StoreFailure string

text \<open>
  Modelled from the spec: the two reads of the table, by short code and by exact
  original URL.
\<close>

definition find_by_code :: "string \<Rightarrow> row list \<Rightarrow> row option" where
  "find_by_code c rs = find (\<lambda>r. short_code r = c) rs"

definition find_by_url :: "string \<Rightarrow> row list \<Rightarrow> row option" where
  "find_by_url u rs = find (\<lambda>r. original_url r = u) rs"

text \<open>
  Modelled from the spec: urlService.js and its short code generator are not among the
  sources. The generator is random; \<open>cands\<close> lists the codes it yields, in order. The
  policy is "generate, check existence, regenerate on collision"; when the candidates
  are used up the generic failure is raised.
\<close>

fun fresh_code :: "string list \<Rightarrow> store \<Rightarrow> (svc_error + string) \<times> store" where
  "fresh_code [] st = (Inl (StoreFailure ''short code collision''), st)"
| "fresh_code (c # cs) st =
     (case round_trip st of
        (Some cause, st1) \<Rightarrow> (Inl (StoreFailure cause), st1)
      | (None, st1) \<Rightarrow>
          (case find_by_code c (rows st1) of
             None \<Rightarrow> (Inr c, st1)
           | Some _ \<Rightarrow> fresh_code cs st1))"

text \<open>
  Modelled from the spec: \<open>createShortUrl(url, expiresAt)\<close> of urlService.js. It looks
  up a record whose \<open>originalUrl\<close> equals the input exactly; if found it returns that
  record's code and ignores the supplied \<open>expiresAt\<close>; otherwise it inserts a new
  record with \<open>createdAt\<close> = now and \<open>clickCount\<close> = 0.
\<close>

definition createShortUrl ::
  "string list \<Rightarrow> int \<Rightarrow> string \<Rightarrow> int option \<Rightarrow> store \<Rightarrow> (svc_error + string) \<times> store" where
  "createShortUrl cands now url expiresAt st =
     (case round_trip st of
        (Some cause, st1) \<Rightarrow> (Inl (StoreFailure cause), st1)
      | (None, st1) \<Rightarrow>
          (case find_by_url url (rows st1) of
             Some r \<Rightarrow> (Inr (short_code r), st1)
           | None \<Rightarrow>
               (case fresh_code cands st1 of
                  (Inl e, st2) \<Rightarrow> (Inl e, st2)
                | (Inr c, st2) \<Rightarrow>
                    (case round_trip st2 of
                       (Some cause, st3) \<Rightarrow> (Inl (StoreFailure cause), st3)
                     | (None, st3) \<Rightarrow>
                         (Inr c,
                          st3\<lparr>rows := rows st3 @
                            [\<lparr>short_code = c, original_url = url, click_count = 0,
                              created_at = now, expires_at = expiresAt\<rparr>]\<rparr>)))))"

text \<open>
  Modelled from the spec: \<open>getUrlByShortCode(shortCode)\<close> of urlService.js. Not found
  fails with \<open>NotFound\<close>; found with \<open>expiresAt\<close> set and now > \<open>expiresAt\<close> fails with
  \<open>Expired\<close>, which carries the expiration timestamp; otherwise the row is returned.
\<close>

definition getUrlByShortCode :: "int \<Rightarrow> string \<Rightarrow> store \<Rightarrow> (svc_error + row) \<times> store" where
  "getUrlByShortCode now c st =
     (case round_trip st of
        (Some cause, st1) \<Rightarrow> (Inl (StoreFailure cause), st1)
      | (None, st1) \<Rightarrow>
          (case find_by_code c (rows st1) of
             None \<Rightarrow> (Inl NotFound, st1)
           | Some r \<Rightarrow>
               (case expires_at r of
                  None \<Rightarrow> (Inr r, st1)
                | Some e \<Rightarrow> if now > e then (Inl (Expired e), st1) else (Inr r, st1))))"

text \<open>
  Modelled from the spec: the update of \<open>incrementClickCount\<close> on one row, which adds
  exactly 1 to \<open>clickCount\<close> of a record matching the code.
\<close>

definition bump :: "string \<Rightarrow> row \<Rightarrow> row" where
  "bump c r = (if short_code r = c then r\<lparr>click_count := click_count r + 1\<rparr> else r)"

text \<open>
  Modelled from the spec: \<open>incrementClickCount(shortCode)\<close> of urlService.js adds
  exactly 1 to \<open>clickCount\<close> of the record matching the code, and does nothing when no
  record matches.
\<close>

definition incrementClickCount :: "string \<Rightarrow> store \<Rightarrow> (svc_error + unit) \<times> store" where
  "incrementClickCount c st =
     (case round_trip st of
        (Some cause, st1) \<Rightarrow> (Inl (StoreFailure cause), st1)
      | (None, st1) \<Rightarrow> (Inr (), st1\<lparr>rows := map (bump c) (rows st1)\<rparr>))"

text \<open>
  Modelled from the spec: \<open>getUrlStats(shortCode)\<close> of urlService.js fails with
  \<open>NotFound\<close> if no record matches and otherwise returns all fields of the record; it
  does not look at the clock.
\<close>

definition getUrlStats :: "string \<Rightarrow> store \<Rightarrow> (svc_error + row) \<times> store" where
  "getUrlStats c st =
     (case round_trip st of
        (Some cause, st1) \<Rightarrow> (Inl (StoreFailure cause), st1)
      | (None, st1) \<Rightarrow>
          (case find_by_code c (rows st1) of
             None \<Rightarrow> (Inl NotFound, st1)
           | Some r \<Rightarrow> (Inr r, st1)))"

section \<open>The API layer (server.js)\<close>

text \<open>
  What a handler sends. \<open>ExpiredPage e\<close> is the "Link Expired" HTML page, which prints
  \<open>new Date(e).toLocaleString()\<close>; \<open>RedirectTo u\<close> is \<open>res.redirect(u)\<close>, whose status
  is 302; \<open>QrPng t\<close> is the \<open>image/png\<close> stream that \<open>QRCode.toFileStream\<close> writes for
  the text \<open>t\<close>.
\<close>

datatype body =
    HealthJson string string string
  | DebugJson "(string \<times> string) list"
  | ShortenJson string string
  | ErrorJson string
  | StatsJson row
  | RedirectTo string
  | ExpiredPage int
  | NotFoundPage
  | QrPng string

text \<open>
  \<open>Reply status body\<close> is a response; \<open>Uncaught\<close> is an exception that leaves the
  handler (the TypeError of line 69 or of line 72, the error of the QR encoder) and is
  left to the framework, whose error handler answers 500.
\<close>

datatype reply = Reply nat body | Uncaught

text \<open>\<open>app.get('/')\<close>\<close>

definition get_root :: "environment \<Rightarrow> store \<Rightarrow> reply \<times> store" where
  "get_root env st =
     (Reply 200 (HealthJson ''ok'' ''URL Shortener API''
        (''API endpoints available under '' @ BASE_URL env @ ''/api'')), st)"

text \<open>\<open>app.get('/api/debug/urls')\<close>: one query on the pool; the catch sends \<open>err.message\<close>.\<close>

definition get_debug_urls :: "store \<Rightarrow> reply \<times> store" where
  "get_debug_urls st =
     (case round_trip st of
        (Some cause, st1) \<Rightarrow> (Reply 500 (ErrorJson cause), st1)
      | (None, st1) \<Rightarrow>
          (Reply 200 (DebugJson (map (\<lambda>r. (short_code r, original_url r)) (rows st1))), st1))"

text \<open>
  Line 72, \<open>url = url ? url.trim() : null\<close>: \<open>Inl ()\<close> is the TypeError of calling
  \<open>trim\<close> on a truthy value that is not a string, \<open>Inr None\<close> is \<open>null\<close>.
\<close>

definition trimmed_url :: "jsval option \<Rightarrow> unit + string option" where
  "trimmed_url v =
     (case v of
        None \<Rightarrow> Inr None
      | Some j \<Rightarrow>
          (if truthy j
           then (case j of JStr s \<Rightarrow> Inr (Some (trim s)) | _ \<Rightarrow> Inl ())
           else Inr None))"

text \<open>
  \<open>app.post('/api/shorten')\<close>. The argument \<open>req_body\<close> is \<open>req.body\<close>: \<open>None\<close> when
  \<open>bodyParser.json()\<close> parsed no body and left it \<open>undefined\<close> (a request without a
  JSON content type, under the body-parser of Express 5). Line 69 destructures it
  outside the \<open>try\<close>, so that an undefined body is a TypeError that leaves the handler.
\<close>

definition post_shorten ::
  "url_parser \<Rightarrow> environment \<Rightarrow> string list \<Rightarrow> int \<Rightarrow> shorten_body option \<Rightarrow> store \<Rightarrow>
     reply \<times> store" where
  "post_shorten parses env cands now req_body st =
     (case req_body of
        None \<Rightarrow> (Uncaught, st)
      | Some b \<Rightarrow>
          (case trimmed_url (body_url b) of
             Inl _ \<Rightarrow> (Uncaught, st)
           | Inr None \<Rightarrow> (Reply 400 (ErrorJson ''Invalid URL''), st)
           | Inr (Some url) \<Rightarrow>
               (if url = [] \<or> \<not> isValidUrl parses url
                then (Reply 400 (ErrorJson ''Invalid URL''), st)
                else
                  (case createShortUrl cands now url (body_expires_at b) st of
                     (Inr shortCode, st') \<Rightarrow>
                       (Reply 200 (ShortenJson (BASE_URL env @ ''/'' @ shortCode) shortCode), st')
                   | (Inl err, st') \<Rightarrow> (Reply 500 (ErrorJson ''Failed to shorten''), st')))))"

text \<open>\<open>app.get('/api/stats/:shortCode')\<close>: every error of the service is answered 404.\<close>

definition get_stats :: "string \<Rightarrow> store \<Rightarrow> reply \<times> store" where
  "get_stats shortCode st =
     (case getUrlStats shortCode st of
        (Inr stats, st') \<Rightarrow> (Reply 200 (StatsJson stats), st')
      | (Inl err, st') \<Rightarrow> (Reply 404 (ErrorJson ''Not found''), st'))"

text \<open>
  \<open>app.get('/api/qr/:shortCode')\<close>. The QR encoder is a collaborator outside the
  repository; it is a parameter \<open>fits\<close> of the model: \<open>fits t\<close> holds when the text \<open>t\<close>
  is within what a QR code can hold, so that \<open>QRCode.toFileStream\<close> writes the image.
  When it does not hold, the encoder reports its error through \<open>res.emit('error', e)\<close>;
  the handler has no guard and no \<open>try\<close>, and the error leaves it.
\<close>

type_synonym qr_encoder = "string \<Rightarrow> bool"

definition get_qr :: "qr_encoder \<Rightarrow> environment \<Rightarrow> string \<Rightarrow> store \<Rightarrow> reply \<times> store" where
  "get_qr fits env shortCode st =
     (let shortUrl = BASE_URL env @ ''/'' @ shortCode
      in if fits shortUrl then (Reply 200 (QrPng shortUrl), st) else (Uncaught, st))"

text \<open>
  The capacity of the largest QR code at the encoder's default error correction level,
  for a text that is encoded byte by byte, as a text of lower-case letters and
  punctuation is: 2331 bytes. It stands for the encoder at the concrete inputs of the
  examples below.
\<close>

definition fits_bytes :: qr_encoder where
  "fits_bytes t = (length t \<le> 2331)"

text \<open>
  \<open>app.get('/:shortCode')\<close>: look up, then increment, then redirect; the catch sends the
  410 page when \<open>err.status === 'expired'\<close> and the 404 page for every other error.
\<close>

definition error_page :: "svc_error \<Rightarrow> reply" where
  "error_page err =
     (case err of
        Expired e \<Rightarrow> Reply 410 (ExpiredPage e)
      | _ \<Rightarrow> Reply 404 NotFoundPage)"

definition get_redirect :: "int \<Rightarrow> string \<Rightarrow> store \<Rightarrow> reply \<times> store" where
  "get_redirect now shortCode st =
     (case getUrlByShortCode now shortCode st of
        (Inl err, st1) \<Rightarrow> (error_page err, st1)
      | (Inr r, st1) \<Rightarrow>
          (case incrementClickCount shortCode st1 of
             (Inl err, st2) \<Rightarrow> (error_page err, st2)
           | (Inr _, st2) \<Rightarrow> (Reply 302 (RedirectTo (original_url r)), st2)))"




section \<open>Requests and runs\<close>

text \<open>
  A request together with what the environment contributes to it: the clock and, for
  a creation, the codes the generator yields. Requests are served one after another;
  how concurrent requests interleave at the awaits of a handler is outside the model,
  and so is the routing of the framework.
\<close>

datatype request =
    GetRoot
  | GetDebugUrls
  | PostShorten "string list" int "shorten_body option"
  | GetStats string
  | GetQr string
  | GetRedirect int string

fun handle ::
  "url_parser \<Rightarrow> qr_encoder \<Rightarrow> environment \<Rightarrow> request \<Rightarrow> store \<Rightarrow> reply \<times> store" where
  "handle parses fits env GetRoot st = get_root env st"
| "handle parses fits env GetDebugUrls st = get_debug_urls st"
| "handle parses fits env (PostShorten cands now b) st = post_shorten parses env cands now b st"
| "handle parses fits env (GetStats c) st = get_stats c st"
| "handle parses fits env (GetQr c) st = get_qr fits env c st"
| "handle parses fits env (GetRedirect now c) st = get_redirect now c st"

fun run ::
  "url_parser \<Rightarrow> qr_encoder \<Rightarrow> environment \<Rightarrow> request list \<Rightarrow> store \<Rightarrow>
     reply list \<times> store" where
  "run parses fits env [] st = ([], st)"
| "run parses fits env (q # qs) st =
     (case handle parses fits env q st of
        (a, st1) \<Rightarrow> (case run parses fits env qs st1 of (as, st2) \<Rightarrow> (a # as, st2)))"

text \<open>The click count a stats caller sees for a code, if the code is stored.\<close>

definition clicks :: "store \<Rightarrow> string \<Rightarrow> nat option" where
  "clicks st c = map_option click_count (find_by_code c (rows st))"

text \<open>The requests of a run that resolved \<open>c\<close> successfully (a 302 redirect).\<close>

fun resolved :: "string \<Rightarrow> request \<times> reply \<Rightarrow> bool" where
  "resolved c (GetRedirect now c', Reply status b) = (c' = c \<and> status = 302)"
| "resolved c _ = False"

text \<open>The two uniqueness invariants of the table.\<close>

definition unique_codes :: "store \<Rightarrow> bool" where
  "unique_codes st = distinct (map short_code (rows st))"

definition unique_urls :: "store \<Rightarrow> bool" where
  "unique_urls st = distinct (map original_url (rows st))"

section \<open>Sample configurations, bodies and stores\<close>

text \<open>The default configuration, one with a base URL of its own, and one on Azure.\<close>

definition env_default :: environment where
  "env_default = \<lparr>env_PORT = None, env_BASE_URL = None\<rparr>"

definition env_short :: environment where
  "env_short = \<lparr>env_PORT = None, env_BASE_URL = Some ''https://sho.rt''\<rparr>"

definition env_azure :: environment where
  "env_azure = \<lparr>env_PORT = None, env_BASE_URL = Some ''https://myapp.azurewebsites.net''\<rparr>"

text \<open>A body with the URL of the spec's scenario, padded with blanks, and no expiration.\<close>

definition body_ab :: shorten_body where
  "body_ab = \<lparr>body_url = Some (JStr '' https://example.com/a/b ''), body_expires_at = None\<rparr>"

text \<open>The same URL with an expiration at instant 900.\<close>

definition body_ab_900 :: shorten_body where
  "body_ab_900 = \<lparr>body_url = Some (JStr ''https://example.com/a/b''), body_expires_at = Some 900\<rparr>"

text \<open>A record for that URL that expired at instant 100 after three clicks.\<close>

definition row_old :: row where
  "row_old = \<lparr>short_code = ''abc'', original_url = ''https://example.com/a/b'',
     click_count = 3, created_at = 0, expires_at = Some 100\<rparr>"

definition store_empty :: store where
  "store_empty = \<lparr>rows = [], faults = []\<rparr>"

text \<open>The table after the first creation of the scenario, at instant 5 with the code \<open>q7\<close>.\<close>

definition store_new :: store where
  "store_new = \<lparr>rows = [\<lparr>short_code = ''q7'', original_url = ''https://example.com/a/b'',
     click_count = 0, created_at = 5, expires_at = None\<rparr>], faults = []\<rparr>"

text \<open>
  Requests that follow that creation: two resolutions of \<open>q7\<close>, one of an unknown code,
  and requests of the other endpoints in between; their replies and the table they
  leave.
\<close>

definition visits :: "request list" where
  "visits = [GetRedirect 6 ''q7'', GetStats ''q7'', GetRedirect 7 ''zzz'', GetRedirect 8 ''q7'',
     PostShorten [''k2''] 9 (Some body_ab_900), GetQr ''q7'']"

definition visit_replies :: "reply list" where
  "visit_replies =
     [Reply 302 (RedirectTo ''https://example.com/a/b''),
      Reply 200 (StatsJson \<lparr>short_code = ''q7'', original_url = ''https://example.com/a/b'',
        click_count = 1, created_at = 5, expires_at = None\<rparr>),
      Reply 404 NotFoundPage,
      Reply 302 (RedirectTo ''https://example.com/a/b''),
      Reply 200 (ShortenJson ''https://sho.rt/q7'' ''q7''),
      Reply 200 (QrPng ''https://sho.rt/q7'')]"

definition store_clicked :: store where
  "store_clicked = \<lparr>rows = [\<lparr>short_code = ''q7'', original_url = ''https://example.com/a/b'',
     click_count = 2, created_at = 5, expires_at = None\<rparr>], faults = []\<rparr>"

definition store_old :: store where
  "store_old = \<lparr>rows = [row_old], faults = []\<rparr>"





text \<open>The same table behind a connection that is refused at the next round trip.\<close>

definition store_down :: store where
  "store_down = \<lparr>rows = [row_old], faults = [Some ''ECONNREFUSED'']\<rparr>"

text \<open>The same table where the second round trip fails.\<close>

definition store_flaky :: store where
  "store_flaky = \<lparr>rows = [row_old], faults = [None, Some ''ETIMEOUT'']\<rparr>"

section \<open>Facts about the store and the handlers\<close>

lemma rows_round_trip: "rows (snd (round_trip st)) = rows st"
  by (simp add: round_trip_def split: list.splits)

lemma round_trip_cases:
  obtains (fail) cause st1 where "round_trip st = (Some cause, st1)" "rows st1 = rows st"
        | (ok) st1 where "round_trip st = (None, st1)" "rows st1 = rows st"
  using rows_round_trip [of st] by (cases "round_trip st") (case_tac a, auto)

lemma fresh_code_rows: "rows (snd (fresh_code cs st)) = rows st"
proof (induction cs arbitrary: st)
  case Nil
  show ?case by simp
next
  case (Cons c cs)
  show ?case
  proof (cases st rule: round_trip_cases)
    case (fail cause st1)
    then show ?thesis by simp
  next
    case (ok st1)
    then show ?thesis using Cons.IH [of st1] by (simp split: option.splits)
  qed
qed

lemma fresh_code_fresh:
  "fresh_code cs st = (Inr c, st') \<Longrightarrow> find_by_code c (rows st) = None \<and> c \<in> set cs"
proof (induction cs arbitrary: st)
  case Nil
  then show ?case by simp
next
  case (Cons d cs)
  show ?case
  proof (cases st rule: round_trip_cases)
    case (fail cause st1)
    with Cons.prems show ?thesis by simp
  next
    case (ok st1)
    with Cons.prems Cons.IH [of st1] show ?thesis
      by (auto split: option.splits)
  qed
qed


lemma find_by_code_append:
  "find_by_code c (rs @ [x]) =
     (case find_by_code c rs of
        Some r \<Rightarrow> Some r
      | None \<Rightarrow> if short_code x = c then Some x else None)"
  by (induction rs) (auto simp: find_by_code_def)

lemma find_by_url_append:
  "find_by_url u (rs @ [x]) =
     (case find_by_url u rs of
        Some r \<Rightarrow> Some r
      | None \<Rightarrow> if original_url x = u then Some x else None)"
  by (induction rs) (auto simp: find_by_url_def)

lemma find_by_code_bump:
  "find_by_code c (map (bump d) rs) = map_option (bump d) (find_by_code c rs)"
  by (induction rs) (auto simp: find_by_code_def bump_def)

lemma find_by_code_None: "find_by_code c rs = None \<longleftrightarrow> c \<notin> short_code ` set rs"
  by (auto simp: find_by_code_def find_None_iff)

lemma find_by_url_None: "find_by_url u rs = None \<longleftrightarrow> u \<notin> original_url ` set rs"
  by (auto simp: find_by_url_def find_None_iff)

lemma find_by_url_Some: "find_by_url u rs = Some r \<Longrightarrow> r \<in> set rs \<and> original_url r = u"
  by (auto simp: find_by_url_def find_Some_iff)

lemma find_by_code_Some: "find_by_code c rs = Some r \<Longrightarrow> r \<in> set rs \<and> short_code r = c"
  by (auto simp: find_by_code_def find_Some_iff)

lemma find_by_code_unique:
  "distinct (map short_code rs) \<Longrightarrow> r \<in> set rs \<Longrightarrow> find_by_code (short_code r) rs = Some r"
  by (induction rs) (auto simp: find_by_code_def)

lemma find_by_url_unique:
  "distinct (map original_url rs) \<Longrightarrow> r \<in> set rs \<Longrightarrow> find_by_url (original_url r) rs = Some r"
  by (induction rs) (auto simp: find_by_url_def)

lemma one_row_per_key:
  "distinct (map f rs) \<Longrightarrow> r \<in> set rs \<Longrightarrow> length (filter (\<lambda>x. f x = f r) rs) = 1"
proof (induction rs)
  case Nil
  then show ?case by simp
next
  case (Cons x rs)
  show ?case
  proof (cases "x = r")
    case True
    have "filter (\<lambda>y. f y = f r) rs = []"
      using Cons.prems True by (force simp: filter_empty_conv image_iff)
    with True show ?thesis by simp
  next
    case False
    with Cons.prems have "r \<in> set rs" "f x \<noteq> f r" by auto
    with Cons show ?thesis by simp
  qed
qed

text \<open>The outcomes of a creation.\<close>

lemma createShortUrl_cases:
  assumes "createShortUrl cands now u e st = (res, st')"
  obtains
    (failed) err where "res = Inl err" "rows st' = rows st"
  | (existing) r where "find_by_url u (rows st) = Some r" "res = Inr (short_code r)"
      "rows st' = rows st"
  | (inserted) c where "find_by_url u (rows st) = None" "find_by_code c (rows st) = None"
      "res = Inr c"
      "rows st' = rows st @ [\<lparr>short_code = c, original_url = u, click_count = 0,
         created_at = now, expires_at = e\<rparr>]"
proof (cases st rule: round_trip_cases)
  case (fail cause st1)
  with assms failed show ?thesis by (auto simp: createShortUrl_def)
next
  case (ok st1)
  show ?thesis
  proof (cases "find_by_url u (rows st)")
    case (Some r)
    with assms ok existing show ?thesis by (auto simp: createShortUrl_def)
  next
    case None
    obtain fr st2 where f: "fresh_code cands st1 = (fr, st2)" by (cases "fresh_code cands st1")
    have r2: "rows st2 = rows st" using fresh_code_rows [of cands st1] f ok by simp
    show ?thesis
    proof (cases fr)
      case (Inl err)
      with assms ok None f r2 failed show ?thesis by (auto simp: createShortUrl_def)
    next
      case (Inr c)
      with f fresh_code_fresh [of cands st1 c st2] ok
      have fresh: "find_by_code c (rows st) = None" by simp
      show ?thesis
      proof (cases st2 rule: round_trip_cases)
        case (fail cause st3)
        with assms ok None f r2 Inr failed show ?thesis by (auto simp: createShortUrl_def)
      next
        case (ok st3)
        with assms \<open>round_trip st = (None, st1)\<close> \<open>rows st1 = rows st\<close> None f r2 Inr fresh
          inserted [of c] show ?thesis by (auto simp: createShortUrl_def)
      qed
    qed
  qed
qed


lemma quiet_round_trip:
  assumes "quiet (Suc n) st"
  obtains st1 where "round_trip st = (None, st1)" "rows st1 = rows st" "quiet n st1"
  using assms by (cases "faults st") (auto simp: quiet_def round_trip_def)

lemma trimmed_url_Some:
  "trimmed_url v = Inr (Some u) \<longleftrightarrow> (\<exists>s. v = Some (JStr s) \<and> s \<noteq> [] \<and> u = trim s)"
  by (cases v; cases "the v") (auto simp: trimmed_url_def)

lemma post_shorten_200:
  assumes "post_shorten P env cands now (Some b) st = (Reply 200 bd, st')"
  obtains s c where "body_url b = Some (JStr s)" "trim s \<noteq> []" "isValidUrl P (trim s)"
    "createShortUrl cands now (trim s) (body_expires_at b) st = (Inr c, st')"
    "bd = ShortenJson (BASE_URL env @ ''/'' @ c) c"
proof (cases "trimmed_url (body_url b)")
  case (Inl x)
  with assms show ?thesis by (simp add: post_shorten_def)
next
  case (Inr ou)
  show ?thesis
  proof (cases ou)
    case None
    with Inr assms show ?thesis by (simp add: post_shorten_def)
  next
    case (Some u)
    with Inr obtain s where s: "body_url b = Some (JStr s)" "u = trim s"
      by (auto simp: trimmed_url_Some)
    from assms Inr Some have v: "u \<noteq> []" "isValidUrl P u"
      by (auto simp: post_shorten_def split: if_splits)
    obtain res st2 where c: "createShortUrl cands now u (body_expires_at b) st = (res, st2)"
      by (cases "createShortUrl cands now u (body_expires_at b) st")
    with assms Inr Some v obtain c where "res = Inr c" "st2 = st'"
      "bd = ShortenJson (BASE_URL env @ ''/'' @ c) c"
      by (cases res) (auto simp: post_shorten_def split: if_splits)
    with s v c that show ?thesis by simp
  qed
qed

lemma post_shorten_rows_Some:
  assumes "post_shorten P env cands now (Some b) st = (a, st')"
  shows "rows st' = rows st \<or>
     (\<exists>c u e. find_by_code c (rows st) = None \<and> find_by_url u (rows st) = None \<and>
        rows st' = rows st @ [\<lparr>short_code = c, original_url = u, click_count = 0,
          created_at = now, expires_at = e\<rparr>])"
proof (cases "trimmed_url (body_url b)")
  case (Inl x)
  with assms show ?thesis by (simp add: post_shorten_def)
next
  case (Inr ou)
  show ?thesis
  proof (cases ou)
    case None
    with Inr assms show ?thesis by (simp add: post_shorten_def)
  next
    case (Some u)
    show ?thesis
    proof (cases "u = [] \<or> \<not> isValidUrl P u")
      case True
      with assms Inr Some show ?thesis by (auto simp: post_shorten_def)
    next
      case False
      obtain res st2 where c: "createShortUrl cands now u (body_expires_at b) st = (res, st2)"
        by (cases "createShortUrl cands now u (body_expires_at b) st")
      with assms Inr Some False have "st2 = st'"
        by (cases res) (auto simp: post_shorten_def)
      with c show ?thesis by (cases rule: createShortUrl_cases) auto
    qed
  qed
qed

lemma post_shorten_rows:
  assumes "post_shorten P env cands now req_body st = (a, st')"
  shows "rows st' = rows st \<or>
     (\<exists>c u e. find_by_code c (rows st) = None \<and> find_by_url u (rows st) = None \<and>
        rows st' = rows st @ [\<lparr>short_code = c, original_url = u, click_count = 0,
          created_at = now, expires_at = e\<rparr>])"
proof (cases req_body)
  case None
  with assms show ?thesis by (simp add: post_shorten_def)
next
  case (Some b)
  with assms have "post_shorten P env cands now (Some b) st = (a, st')" by simp
  then show ?thesis by (rule post_shorten_rows_Some)
qed

lemma get_stats_rows: "rows (snd (get_stats c st)) = rows st"
  by (cases st rule: round_trip_cases)
     (auto simp: get_stats_def getUrlStats_def split: option.splits)

lemma get_debug_urls_rows: "rows (snd (get_debug_urls st)) = rows st"
  by (cases st rule: round_trip_cases) (auto simp: get_debug_urls_def)

lemma getUrlByShortCode_rows: "rows (snd (getUrlByShortCode now c st)) = rows st"
  by (cases st rule: round_trip_cases)
     (auto simp: getUrlByShortCode_def split: option.splits)

lemma getUrlByShortCode_Inr:
  "getUrlByShortCode now c st = (Inr r, st1) \<Longrightarrow>
     find_by_code c (rows st) = Some r \<and> (\<forall>e. expires_at r = Some e \<longrightarrow> \<not> now > e)"
  by (cases st rule: round_trip_cases)
     (auto simp: getUrlByShortCode_def split: option.splits if_splits)

text \<open>The outcomes of a resolution: only a 302 changes the table.\<close>

lemma get_redirect_cases:
  assumes "get_redirect now c st = (a, st')"
  obtains
    (redirected) r where "find_by_code c (rows st) = Some r"
      "\<forall>e. expires_at r = Some e \<longrightarrow> \<not> now > e"
      "a = Reply 302 (RedirectTo (original_url r))" "rows st' = map (bump c) (rows st)"
  | (refused) b where "a = Reply 410 b \<or> a = Reply 404 b" "rows st' = rows st"
proof -
  obtain res st1 where g: "getUrlByShortCode now c st = (res, st1)"
    by (cases "getUrlByShortCode now c st")
  have r1: "rows st1 = rows st" using getUrlByShortCode_rows [of now c st] g by simp
  show ?thesis
  proof (cases res)
    case (Inl err)
    with assms g r1 refused show ?thesis
      by (cases err) (auto simp: get_redirect_def error_page_def)
  next
    case (Inr r)
    with g have f: "find_by_code c (rows st) = Some r"
      "\<forall>e. expires_at r = Some e \<longrightarrow> \<not> now > e"
      using getUrlByShortCode_Inr [of now c st r st1] by simp_all
    show ?thesis
    proof (cases st1 rule: round_trip_cases)
      case (fail cause st2)
      with assms g r1 Inr refused show ?thesis
        by (auto simp: get_redirect_def incrementClickCount_def error_page_def)
    next
      case (ok st2)
      with assms g r1 Inr f redirected [of r] show ?thesis
        by (auto simp: get_redirect_def incrementClickCount_def)
    qed
  qed
qed

lemma short_code_bump [simp]: "short_code (bump d r) = short_code r"
  by (simp add: bump_def)

lemma original_url_bump [simp]: "original_url (bump d r) = original_url r"
  by (simp add: bump_def)

lemma click_count_bump: "click_count (bump d r) = (if short_code r = d then click_count r + 1 else click_count r)"
  by (simp add: bump_def)

text \<open>One request changes a stored click count only when it resolves that code.\<close>

lemma handle_clicks_Some:
  assumes "handle P F env q st = (a, st')" "clicks st c = Some n"
  shows "clicks st' c = Some (if resolved c (q, a) then n + 1 else n)"
proof (cases q)
  case GetRoot
  with assms show ?thesis by (auto simp: get_root_def)
next
  case GetDebugUrls
  with assms get_debug_urls_rows [of st] show ?thesis
    by (cases a) (auto simp: clicks_def)
next
  case (PostShorten cands now b)
  with assms have p: "post_shorten P env cands now b st = (a, st')" by simp
  from post_shorten_rows [OF p] assms(2) have "clicks st' c = Some n"
    by (auto simp: clicks_def find_by_code_append split: option.splits)
  with PostShorten show ?thesis by (cases a) auto
next
  case (GetStats d)
  with assms get_stats_rows [of d st] show ?thesis
    by (cases a) (auto simp: clicks_def)
next
  case (GetQr d)
  with assms show ?thesis by (auto simp: get_qr_def Let_def split: if_splits)
next
  case (GetRedirect now d)
  with assms have g: "get_redirect now d st = (a, st')" by simp
  from g show ?thesis
  proof (cases rule: get_redirect_cases)
    case (redirected r)
    with assms(2) GetRedirect show ?thesis
      by (auto simp: clicks_def find_by_code_bump click_count_bump dest: find_by_code_Some)
  next
    case (refused b)
    with assms(2) GetRedirect show ?thesis by (auto simp: clicks_def)
  qed
qed

lemma handle_clicks_None:
  assumes "handle P F env q st = (a, st')" "clicks st c = None"
  shows "clicks st' c = None \<or> clicks st' c = Some 0"
proof (cases q)
  case GetRoot
  with assms show ?thesis by (auto simp: get_root_def)
next
  case GetDebugUrls
  with assms get_debug_urls_rows [of st] show ?thesis by (auto simp: clicks_def)
next
  case (PostShorten cands now b)
  with assms have p: "post_shorten P env cands now b st = (a, st')" by simp
  from post_shorten_rows [OF p] assms(2) show ?thesis
    by (auto simp: clicks_def find_by_code_append split: option.splits)
next
  case (GetStats d)
  with assms get_stats_rows [of d st] show ?thesis by (auto simp: clicks_def)
next
  case (GetQr d)
  with assms show ?thesis by (auto simp: get_qr_def Let_def split: if_splits)
next
  case (GetRedirect now d)
  with assms have g: "get_redirect now d st = (a, st')" by simp
  from g show ?thesis
  proof (cases rule: get_redirect_cases)
    case (redirected r)
    with assms(2) show ?thesis by (auto simp: clicks_def find_by_code_bump)
  next
    case (refused b)
    with assms(2) show ?thesis by (auto simp: clicks_def)
  qed
qed

lemma run_clicks:
  "run P F env qs st = (as, st') \<Longrightarrow> clicks st c = Some n \<Longrightarrow>
     clicks st' c = Some (n + length (filter (resolved c) (zip qs as)))"
proof (induction qs arbitrary: st as n st')
  case Nil
  then show ?case by simp
next
  case (Cons q qs)
  obtain a st1 where h: "handle P F env q st = (a, st1)" by (cases "handle P F env q st")
  obtain as1 st2 where r: "run P F env qs st1 = (as1, st2)" by (cases "run P F env qs st1")
  from Cons.prems(1) h r have e: "as = a # as1" "st' = st2" by auto
  from handle_clicks_Some [OF h Cons.prems(2)]
  have "clicks st1 c = Some (if resolved c (q, a) then n + 1 else n)" .
  from Cons.IH [OF r this] e show ?case by simp
qed

text \<open>Every handler keeps short codes and stored URLs unique.\<close>

lemma handle_unique_codes:
  assumes "handle P F env q st = (a, st')" "unique_codes st"
  shows "unique_codes st'"
proof (cases q)
  case GetRoot
  with assms show ?thesis by (auto simp: get_root_def)
next
  case GetDebugUrls
  with assms get_debug_urls_rows [of st] show ?thesis by (auto simp: unique_codes_def)
next
  case (PostShorten cands now b)
  with assms have p: "post_shorten P env cands now b st = (a, st')" by simp
  from post_shorten_rows [OF p] assms(2) show ?thesis
    by (auto simp: unique_codes_def find_by_code_None)
next
  case (GetStats d)
  with assms get_stats_rows [of d st] show ?thesis by (auto simp: unique_codes_def)
next
  case (GetQr d)
  with assms show ?thesis by (auto simp: get_qr_def Let_def split: if_splits)
next
  case (GetRedirect now d)
  with assms have g: "get_redirect now d st = (a, st')" by simp
  from g assms(2) show ?thesis
    by (cases rule: get_redirect_cases) (auto simp: unique_codes_def comp_def)
qed

lemma handle_unique_urls:
  assumes "handle P F env q st = (a, st')" "unique_urls st"
  shows "unique_urls st'"
proof (cases q)
  case GetRoot
  with assms show ?thesis by (auto simp: get_root_def)
next
  case GetDebugUrls
  with assms get_debug_urls_rows [of st] show ?thesis by (auto simp: unique_urls_def)
next
  case (PostShorten cands now b)
  with assms have p: "post_shorten P env cands now b st = (a, st')" by simp
  from post_shorten_rows [OF p] assms(2) show ?thesis
    by (auto simp: unique_urls_def find_by_url_None)
next
  case (GetStats d)
  with assms get_stats_rows [of d st] show ?thesis by (auto simp: unique_urls_def)
next
  case (GetQr d)
  with assms show ?thesis by (auto simp: get_qr_def Let_def split: if_splits)
next
  case (GetRedirect now d)
  with assms have g: "get_redirect now d st = (a, st')" by simp
  from g assms(2) show ?thesis
    by (cases rule: get_redirect_cases) (auto simp: unique_urls_def comp_def)
qed

lemma run_unique:
  "run P F env qs st = (as, st') \<Longrightarrow> unique_codes st \<and> unique_urls st \<Longrightarrow>
     unique_codes st' \<and> unique_urls st'"
proof (induction qs arbitrary: st as st')
  case Nil
  then show ?case by simp
next
  case (Cons q qs)
  obtain a st1 where h: "handle P F env q st = (a, st1)" by (cases "handle P F env q st")
  obtain as1 st2 where r: "run P F env qs st1 = (as1, st2)" by (cases "run P F env qs st1")
  from Cons.prems(1) h r have e: "st' = st2" by auto
  from handle_unique_codes [OF h] handle_unique_urls [OF h] Cons.prems(2)
  have "unique_codes st1 \<and> unique_urls st1" by simp
  from Cons.IH [OF r this] e show ?case by simp
qed

text \<open>
  \<open>str_includes\<close> is the substring relation, which is transitive.
\<close>

lemma str_includes_sublist: "str_includes s t \<longleftrightarrow> sublist t s"
  by (induction s) (auto simp: sublist_Cons_right)

lemma str_includes_trans:
  "str_includes s t \<Longrightarrow> str_includes t u \<Longrightarrow> str_includes s u"
  unfolding str_includes_sublist by (rule sublist_order.order.trans)



text \<open>After a 200 the table holds a record with the returned code and the trimmed URL.\<close>

lemma post_shorten_stored:
  assumes "post_shorten parses env cands now (Some b) st = (Reply 200 (ShortenJson su c), st1)"
    and "body_url b = Some (JStr s)"
  obtains r where "find_by_url (trim s) (rows st1) = Some r" "short_code r = c"
    "trim s \<noteq> []" "isValidUrl parses (trim s)"
    "r \<in> set (rows st) \<or>
     (find_by_code c (rows st) = None \<and> rows st1 = rows st @ [r] \<and>
      r = \<lparr>short_code = c, original_url = trim s, click_count = 0, created_at = now,
        expires_at = body_expires_at b\<rparr>)"
proof -
  from assms(1) obtain s' c' where p: "body_url b = Some (JStr s')" "trim s' \<noteq> []"
    "isValidUrl parses (trim s')"
    "createShortUrl cands now (trim s') (body_expires_at b) st = (Inr c', st1)"
    "ShortenJson su c = ShortenJson (BASE_URL env @ ''/'' @ c') c'"
    by (rule post_shorten_200)
  with assms(2) have e: "s' = s" "c' = c" by simp_all
  from p(4) show ?thesis
  proof (cases rule: createShortUrl_cases)
    case (failed err)
    then show ?thesis by simp
  next
    case (existing r)
    with e p that [of r] show ?thesis by (auto dest: find_by_url_Some)
  next
    case (inserted d)
    with e p that [of "\<lparr>short_code = c, original_url = trim s, click_count = 0, created_at = now,
        expires_at = body_expires_at b\<rparr>"] show ?thesis
      by (simp add: find_by_url_append)
  qed
qed

text \<open>
  A creation succeeds: on a store that answers, a valid URL is answered 200 when it is
  stored already or the generator yields a code that is free.
\<close>

lemma round_trip_no_faults: "faults st = [] \<Longrightarrow> round_trip st = (None, st)"
  by (simp add: round_trip_def)

lemma fresh_code_succeeds:
  assumes "faults st = []" "c \<in> set cands" "find_by_code c (rows st) = None"
  shows "\<exists>d. fresh_code cands st = (Inr d, st)"
  using assms(2)
proof (induction cands)
  case Nil
  then show ?case by simp
next
  case (Cons x xs)
  show ?case
  proof (cases "find_by_code x (rows st)")
    case None
    with assms(1) show ?thesis by (simp add: round_trip_no_faults)
  next
    case (Some r)
    with assms(3) Cons.prems have "c \<in> set xs" by auto
    with Cons.IH Some assms(1) show ?thesis by (simp add: round_trip_no_faults)
  qed
qed

lemma post_shorten_succeeds:
  assumes "faults st = []" "body_url b = Some (JStr s)" "trim s \<noteq> []" "isValidUrl parses (trim s)"
    and "find_by_url (trim s) (rows st) \<noteq> None \<or>
         (\<exists>c \<in> set cands. find_by_code c (rows st) = None)"
  shows "\<exists>c. fst (post_shorten parses env cands now (Some b) st) =
           Reply 200 (ShortenJson (BASE_URL env @ ''/'' @ c) c)"
proof -
  have "trim [] = []" by (simp add: trim_def)
  with assms(3) have "s \<noteq> []" by auto
  with assms(2) have t: "trimmed_url (body_url b) = Inr (Some (trim s))"
    by (simp add: trimmed_url_def)
  have "\<exists>c st'. createShortUrl cands now (trim s) (body_expires_at b) st = (Inr c, st')"
  proof (cases "find_by_url (trim s) (rows st)")
    case (Some r)
    with assms(1) show ?thesis by (simp add: createShortUrl_def round_trip_no_faults)
  next
    case None
    with assms(5) obtain c where "c \<in> set cands" "find_by_code c (rows st) = None" by auto
    from fresh_code_succeeds [OF assms(1) this] obtain d where "fresh_code cands st = (Inr d, st)" ..
    with None assms(1) show ?thesis by (simp add: createShortUrl_def round_trip_no_faults)
  qed
  then obtain c st' where "createShortUrl cands now (trim s) (body_expires_at b) st = (Inr c, st')"
    by blast
  with t assms(3,4) show ?thesis by (auto simp: post_shorten_def)
qed

section \<open>The claims\<close>

text \<open>
  Claim C1. Let \<open>r\<close> be a stored record whose \<open>expires_at\<close> is \<open>e\<close>, earlier than the time
  \<open>now\<close> of the lookup, in a table with unique short codes, and let the lookup reach
  the store. Then resolving the code of \<open>r\<close> fails with \<open>Expired e\<close>, the reply is
  410 with the page that shows \<open>e\<close>, and the table, so every click count, is as
  before.
\<close>

theorem expired_resolution_gone:
  assumes "unique_codes st" "r \<in> set (rows st)" "expires_at r = Some e" "e < now" "quiet 1 st"
  shows "fst (getUrlByShortCode now (short_code r) st) = Inl (Expired e) \<and>
         fst (get_redirect now (short_code r) st) = Reply 410 (ExpiredPage e) \<and>
         rows (snd (get_redirect now (short_code r) st)) = rows st"
proof -
  from assms(1,2) have f: "find_by_code (short_code r) (rows st) = Some r"
    by (simp add: unique_codes_def find_by_code_unique)
  from assms(5) obtain st1 where rt: "round_trip st = (None, st1)" "rows st1 = rows st"
    by (auto elim: quiet_round_trip [of 0 st, simplified])
  with f assms(3,4) have g: "getUrlByShortCode now (short_code r) st = (Inl (Expired e), st1)"
    by (simp add: getUrlByShortCode_def)
  with rt show ?thesis by (simp add: get_redirect_def error_page_def)
qed

text \<open>
  The record that expired at instant 100, looked up at instant 101.
\<close>

theorem expired_resolution_gone_witness:
  "unique_codes store_old \<and> row_old \<in> set (rows store_old) \<and>
   expires_at row_old = Some 100 \<and> (100 :: int) < 101 \<and> quiet 1 store_old \<and>
   fst (getUrlByShortCode 101 ''abc'' store_old) = Inl (Expired 100) \<and>
   fst (get_redirect 101 ''abc'' store_old) = Reply 410 (ExpiredPage 100) \<and>
   rows (snd (get_redirect 101 ''abc'' store_old)) = rows store_old"
proof -
  have h: "unique_codes store_old" "row_old \<in> set (rows store_old)"
    "expires_at row_old = Some 100" "(100 :: int) < 101" "quiet 1 store_old"
    by code_simp+
  have c: "short_code row_old = ''abc''" by (simp add: row_old_def)
  from expired_resolution_gone [OF h] h c show ?thesis by simp
qed




text \<open>
  Claim C3. After a creation for a URL was answered 200 with the code \<open>c\<close>, in a table
  with unique URLs, a second creation whose URL trims to the same string, whatever
  expiration, clock and generator it comes with, is answered 200 with the same
  \<open>short_url\<close> and \<open>c\<close> when its lookup reaches the store; it leaves the table as it
  was, so the first record's expiration stands, and the table holds exactly one
  record for that URL.
\<close>

theorem create_twice_same_code:
  assumes "unique_urls st"
    and "post_shorten parses env cands1 now1 (Some b1) st = (Reply 200 (ShortenJson su c), st1)"
    and "body_url b1 = Some (JStr s1)"
    and "body_url b2 = Some (JStr s2)"
    and "trim s2 = trim s1"
    and "quiet 1 st1"
  shows "fst (post_shorten parses env cands2 now2 (Some b2) st1) = Reply 200 (ShortenJson su c) \<and>
         rows (snd (post_shorten parses env cands2 now2 (Some b2) st1)) = rows st1 \<and>
         length (filter (\<lambda>r. original_url r = trim s1) (rows st1)) = 1"
proof -
  from assms(2,3) obtain r where r: "find_by_url (trim s1) (rows st1) = Some r" "short_code r = c"
    "trim s1 \<noteq> []" "isValidUrl parses (trim s1)"
    by (rule post_shorten_stored)
  from assms(2) have su: "su = BASE_URL env @ ''/'' @ c"
    by (cases rule: post_shorten_200) simp
  from r(1) have u: "original_url r = trim s1" "r \<in> set (rows st1)"
    by (simp_all add: find_by_url_Some)
  have "handle parses fits_bytes env (PostShorten cands1 now1 (Some b1)) st = (Reply 200 (ShortenJson su c), st1)"
    using assms(2) by simp
  from handle_unique_urls [OF this assms(1)] have "distinct (map original_url (rows st1))"
    by (simp add: unique_urls_def)
  from one_row_per_key [OF this u(2)] u(1)
  have one: "length (filter (\<lambda>r. original_url r = trim s1) (rows st1)) = 1" by simp
  from assms(6) obtain st2 where rt: "round_trip st1 = (None, st2)" "rows st2 = rows st1"
    by (auto elim: quiet_round_trip [of 0 st1, simplified])
  with r(1) have c2: "createShortUrl cands2 now2 (trim s1) (body_expires_at b2) st1 = (Inr c, st2)"
    using r(2) by (simp add: createShortUrl_def)
  have "trim [] = []" by (simp add: trim_def)
  with r(3) assms(5) have "s2 \<noteq> []" by auto
  with assms(4,5) have "trimmed_url (body_url b2) = Inr (Some (trim s1))"
    by (simp add: trimmed_url_def)
  with r(3,4) c2 su have "post_shorten parses env cands2 now2 (Some b2) st1 = (Reply 200 (ShortenJson su c), st2)"
    by (simp add: post_shorten_def)
  with rt one show ?thesis by simp
qed

text \<open>
  The scenario's URL created twice, the second time without blanks and with an expiration.
\<close>

theorem create_twice_same_code_witness:
  "unique_urls store_empty \<and>
   post_shorten simple_https_url env_short [''q7''] 5 (Some body_ab) store_empty =
     (Reply 200 (ShortenJson ''https://sho.rt/q7'' ''q7''), store_new) \<and>
   trim ''https://example.com/a/b'' = trim '' https://example.com/a/b '' \<and>
   quiet 1 store_new \<and>
   post_shorten simple_https_url env_short [''k2''] 60 (Some body_ab_900) store_new =
     (Reply 200 (ShortenJson ''https://sho.rt/q7'' ''q7''), store_new) \<and>
   length (filter (\<lambda>r. original_url r = ''https://example.com/a/b'') (rows store_new)) = 1"
proof -
  have h: "unique_urls store_empty"
    "post_shorten simple_https_url env_short [''q7''] 5 (Some body_ab) store_empty =
       (Reply 200 (ShortenJson ''https://sho.rt/q7'' ''q7''), store_new)"
    "body_url body_ab = Some (JStr '' https://example.com/a/b '')"
    "body_url body_ab_900 = Some (JStr ''https://example.com/a/b'')"
    "trim ''https://example.com/a/b'' = trim '' https://example.com/a/b ''"
    "quiet 1 store_new"
    by code_simp+
  have t: "trim '' https://example.com/a/b '' = ''https://example.com/a/b''" by code_simp
  have e: "post_shorten simple_https_url env_short [''k2''] 60 (Some body_ab_900) store_new =
     (Reply 200 (ShortenJson ''https://sho.rt/q7'' ''q7''), store_new)" by code_simp
  from create_twice_same_code [OF h, of "[''k2'']" 60] h t e show ?thesis by simp
qed

text \<open>
  Claim C4. For every request of every endpoint and every code \<open>c\<close>: a record that comes
  into being has click count 0; a stored count \<open>n\<close> becomes \<open>n + 1\<close> when the request
  is a resolution of \<open>c\<close> answered 302 and stays \<open>n\<close> otherwise, so it never decreases;
  and a resolution answered 302 found the record unexpired. Hence over any run of
  requests the count grows by the number of successful resolutions of \<open>c\<close>, and that
  count is what the stats endpoint reports.
\<close>

theorem click_count_lifecycle:
  "(handle parses fits env q st = (a, st1) \<longrightarrow>
      (clicks st c = None \<longrightarrow> clicks st1 c = None \<or> clicks st1 c = Some 0) \<and>
      (\<forall>n. clicks st c = Some n \<longrightarrow>
         clicks st1 c = Some (if resolved c (q, a) then n + 1 else n)) \<and>
      (resolved c (q, a) \<longrightarrow>
         (\<exists>now r. q = GetRedirect now c \<and> find_by_code c (rows st) = Some r \<and>
            (\<forall>e. expires_at r = Some e \<longrightarrow> \<not> now > e) \<and>
            a = Reply 302 (RedirectTo (original_url r))))) \<and>
   (run parses fits env qs st' = (as, st2) \<longrightarrow>
      (\<forall>n. clicks st' c' = Some n \<longrightarrow>
         clicks st2 c' = Some (n + length (filter (resolved c') (zip qs as))))) \<and>
   (quiet 1 st3 \<longrightarrow> clicks st3 c3 = Some n3 \<longrightarrow>
      (\<exists>r. fst (get_stats c3 st3) = Reply 200 (StatsJson r) \<and> click_count r = n3))"
proof (intro conjI impI allI)
  assume "handle parses fits env q st = (a, st1)" "clicks st c = None"
  then show "clicks st1 c = None \<or> clicks st1 c = Some 0" by (rule handle_clicks_None)
next
  fix n
  assume "handle parses fits env q st = (a, st1)" "clicks st c = Some n"
  then show "clicks st1 c = Some (if resolved c (q, a) then n + 1 else n)"
    by (rule handle_clicks_Some)
next
  assume h: "handle parses fits env q st = (a, st1)" and r: "resolved c (q, a)"
  from r obtain now bd where q: "q = GetRedirect now c" "a = Reply 302 bd"
    by (cases "(c, (q, a))" rule: resolved.cases) auto
  with h have "get_redirect now c st = (Reply 302 bd, st1)" by simp
  then show "\<exists>now r. q = GetRedirect now c \<and> find_by_code c (rows st) = Some r \<and>
            (\<forall>e. expires_at r = Some e \<longrightarrow> \<not> now > e) \<and>
            a = Reply 302 (RedirectTo (original_url r))"
    using q by (cases rule: get_redirect_cases) auto
next
  fix n
  assume "run parses fits env qs st' = (as, st2)" "clicks st' c' = Some n"
  then show "clicks st2 c' = Some (n + length (filter (resolved c') (zip qs as)))"
    by (rule run_clicks)
next
  assume q: "quiet 1 st3" and c: "clicks st3 c3 = Some n3"
  from c obtain r where r: "find_by_code c3 (rows st3) = Some r" "click_count r = n3"
    by (auto simp: clicks_def)
  from q obtain st4 where "round_trip st3 = (None, st4)" "rows st4 = rows st3"
    by (auto elim: quiet_round_trip [of 0 st3, simplified])
  with r have "fst (get_stats c3 st3) = Reply 200 (StatsJson r)"
    by (simp add: get_stats_def getUrlStats_def)
  with r show "\<exists>r. fst (get_stats c3 st3) = Reply 200 (StatsJson r) \<and> click_count r = n3"
    by blast
qed


text \<open>
  A creation, a refused resolution of an expired code, and a run with two successful
  resolutions among other requests.
\<close>

theorem click_count_lifecycle_witness:
  "handle simple_https_url fits_bytes env_short (PostShorten [''q7''] 5 (Some body_ab)) store_empty =
     (Reply 200 (ShortenJson ''https://sho.rt/q7'' ''q7''), store_new) \<and>
   clicks store_empty ''q7'' = None \<and>
   clicks store_new ''q7'' = Some 0 \<and>
   handle simple_https_url fits_bytes env_short (GetRedirect 101 ''abc'') store_old =
     (Reply 410 (ExpiredPage 100), store_old) \<and>
   clicks store_old ''abc'' = Some 3 \<and>
   \<not> resolved ''abc'' (GetRedirect 101 ''abc'', Reply 410 (ExpiredPage 100)) \<and>
   run simple_https_url fits_bytes env_short visits store_new = (visit_replies, store_clicked) \<and>
   length (filter (resolved ''q7'') (zip visits visit_replies)) = 2 \<and>
   clicks store_clicked ''q7'' = Some 2 \<and>
   quiet 1 store_clicked \<and>
   (\<exists>r. fst (get_stats ''q7'' store_clicked) = Reply 200 (StatsJson r) \<and> click_count r = 2)"
proof -
  have h1: "handle simple_https_url fits_bytes env_short (PostShorten [''q7''] 5 (Some body_ab)) store_empty =
     (Reply 200 (ShortenJson ''https://sho.rt/q7'' ''q7''), store_new)"
    "clicks store_empty ''q7'' = None"
    "clicks store_new ''q7'' = Some 0"
    by code_simp+
  have h2: "handle simple_https_url fits_bytes env_short (GetRedirect 101 ''abc'') store_old =
     (Reply 410 (ExpiredPage 100), store_old)"
    "clicks store_old ''abc'' = Some 3"
    "\<not> resolved ''abc'' (GetRedirect 101 ''abc'', Reply 410 (ExpiredPage 100))"
    by code_simp+
  have h3: "run simple_https_url fits_bytes env_short visits store_new = (visit_replies, store_clicked)"
    "length (filter (resolved ''q7'') (zip visits visit_replies)) = 2"
    "quiet 1 store_clicked"
    by code_simp+
  from click_count_lifecycle [where parses = simple_https_url and fits = fits_bytes and env = env_short
      and qs = visits and st' = store_new and as = visit_replies and ?st2.0 = store_clicked
      and c' = "''q7''"] h1(3) h3(1,2)
  have a: "clicks store_clicked ''q7'' = Some 2" by simp
  from click_count_lifecycle [where parses = simple_https_url and fits = fits_bytes and env = env_short
      and q = "GetRedirect 101 ''abc''" and st = store_old and a = "Reply 410 (ExpiredPage 100)"
      and ?st1.0 = store_old and c = "''abc''"] h2
  have b: "clicks store_old ''abc'' = Some 3" by simp
  from click_count_lifecycle [where ?st3.0 = store_clicked and ?c3.0 = "''q7''" and ?n3.0 = 2]
    h3(3) a
  have c: "\<exists>r. fst (get_stats ''q7'' store_clicked) = Reply 200 (StatsJson r) \<and> click_count r = 2"
    by simp
  from h1 h2 h3 a b c show ?thesis by simp
qed

text \<open>
  Claim C5, as amended. When the Link Service fails while serving \<open>POST /api/shorten\<close>,
  the reply is 500 with the fixed message \<open>Failed to shorten\<close>, whatever the failure.
  \<open>GET /api/stats/:shortCode\<close> answers a store failure with 404 \<open>Not found\<close>, and
  \<open>GET /:shortCode\<close> answers one of the lookup or of the increment with the 404 page.
  \<open>GET /api/debug/urls\<close> answers 500 with the cause itself as the message.
\<close>

theorem store_failure_surfacing:
  "(trimmed_url (body_url b) = Inr (Some u) \<longrightarrow> u \<noteq> [] \<longrightarrow> isValidUrl parses u \<longrightarrow>
      fst (createShortUrl cands now u (body_expires_at b) st) = Inl err \<longrightarrow>
      fst (post_shorten parses env cands now (Some b) st) = Reply 500 (ErrorJson ''Failed to shorten'')) \<and>
   (fst (getUrlStats c st) = Inl (StoreFailure cause) \<longrightarrow>
      fst (get_stats c st) = Reply 404 (ErrorJson ''Not found'')) \<and>
   (fst (getUrlByShortCode now c st) = Inl (StoreFailure cause) \<longrightarrow>
      fst (get_redirect now c st) = Reply 404 NotFoundPage) \<and>
   (getUrlByShortCode now' c' st' = (Inr r, st1) \<longrightarrow>
      fst (incrementClickCount c' st1) = Inl (StoreFailure cause) \<longrightarrow>
      fst (get_redirect now' c' st') = Reply 404 NotFoundPage) \<and>
   (fst (round_trip st) = Some cause \<longrightarrow>
      fst (get_debug_urls st) = Reply 500 (ErrorJson cause))"
proof (intro conjI impI)
  assume "trimmed_url (body_url b) = Inr (Some u)" "u \<noteq> []" "isValidUrl parses u"
    "fst (createShortUrl cands now u (body_expires_at b) st) = Inl err"
  then show "fst (post_shorten parses env cands now (Some b) st) = Reply 500 (ErrorJson ''Failed to shorten'')"
    by (cases "createShortUrl cands now u (body_expires_at b) st") (simp add: post_shorten_def)
next
  assume "fst (getUrlStats c st) = Inl (StoreFailure cause)"
  then show "fst (get_stats c st) = Reply 404 (ErrorJson ''Not found'')"
    by (cases "getUrlStats c st") (simp add: get_stats_def)
next
  assume "fst (getUrlByShortCode now c st) = Inl (StoreFailure cause)"
  then show "fst (get_redirect now c st) = Reply 404 NotFoundPage"
    by (cases "getUrlByShortCode now c st") (simp add: get_redirect_def error_page_def)
next
  assume "getUrlByShortCode now' c' st' = (Inr r, st1)"
    "fst (incrementClickCount c' st1) = Inl (StoreFailure cause)"
  then show "fst (get_redirect now' c' st') = Reply 404 NotFoundPage"
    by (cases "incrementClickCount c' st1") (simp add: get_redirect_def error_page_def)
next
  assume "fst (round_trip st) = Some cause"
  then show "fst (get_debug_urls st) = Reply 500 (ErrorJson cause)"
    by (cases "round_trip st") (simp add: get_debug_urls_def)
qed

text \<open>
  A refused connection at each endpoint, and a time-out at the increment.
\<close>

theorem store_failure_surfacing_witness:
  "fst (createShortUrl [''q7''] 5 ''https://example.com/a/b'' (body_expires_at body_ab) store_down) =
     Inl (StoreFailure ''ECONNREFUSED'') \<and>
   fst (post_shorten simple_https_url env_short [''q7''] 5 (Some body_ab) store_down) =
     Reply 500 (ErrorJson ''Failed to shorten'') \<and>
   fst (getUrlStats ''abc'' store_down) = Inl (StoreFailure ''ECONNREFUSED'') \<and>
   fst (get_stats ''abc'' store_down) = Reply 404 (ErrorJson ''Not found'') \<and>
   fst (getUrlByShortCode 50 ''abc'' store_down) = Inl (StoreFailure ''ECONNREFUSED'') \<and>
   fst (get_redirect 50 ''abc'' store_down) = Reply 404 NotFoundPage \<and>
   getUrlByShortCode 50 ''abc'' store_flaky =
     (Inr row_old, \<lparr>rows = [row_old], faults = [Some ''ETIMEOUT'']\<rparr>) \<and>
   fst (incrementClickCount ''abc'' \<lparr>rows = [row_old], faults = [Some ''ETIMEOUT'']\<rparr>) =
     Inl (StoreFailure ''ETIMEOUT'') \<and>
   fst (get_redirect 50 ''abc'' store_flaky) = Reply 404 NotFoundPage \<and>
   fst (round_trip store_down) = Some ''ECONNREFUSED'' \<and>
   fst (get_debug_urls store_down) = Reply 500 (ErrorJson ''ECONNREFUSED'')"
proof -
  have h1: "trimmed_url (body_url body_ab) = Inr (Some ''https://example.com/a/b'')"
    "''https://example.com/a/b'' \<noteq> []"
    "isValidUrl simple_https_url ''https://example.com/a/b''"
    "fst (createShortUrl [''q7''] 5 ''https://example.com/a/b'' (body_expires_at body_ab) store_down) =
       Inl (StoreFailure ''ECONNREFUSED'')"
    by code_simp+
  have h2: "fst (getUrlStats ''abc'' store_down) = Inl (StoreFailure ''ECONNREFUSED'')"
    "fst (getUrlByShortCode 50 ''abc'' store_down) = Inl (StoreFailure ''ECONNREFUSED'')"
    "fst (round_trip store_down) = Some ''ECONNREFUSED''"
    by code_simp+
  have h3: "getUrlByShortCode 50 ''abc'' store_flaky =
       (Inr row_old, \<lparr>rows = [row_old], faults = [Some ''ETIMEOUT'']\<rparr>)"
    "fst (incrementClickCount ''abc'' \<lparr>rows = [row_old], faults = [Some ''ETIMEOUT'']\<rparr>) =
       Inl (StoreFailure ''ETIMEOUT'')"
    by code_simp+
  from store_failure_surfacing [where b = body_ab and u = "''https://example.com/a/b''"
      and parses = simple_https_url and cands = "[''q7'']" and now = 5 and st = store_down
      and err = "StoreFailure ''ECONNREFUSED''" and env = env_short and c = "''abc''"
      and cause = "''ECONNREFUSED''"] h1 h2
  have a: "fst (post_shorten simple_https_url env_short [''q7''] 5 (Some body_ab) store_down) =
     Reply 500 (ErrorJson ''Failed to shorten'')"
    "fst (get_stats ''abc'' store_down) = Reply 404 (ErrorJson ''Not found'')"
    "fst (get_debug_urls store_down) = Reply 500 (ErrorJson ''ECONNREFUSED'')" by simp_all
  from store_failure_surfacing [where now = 50 and st = store_down and c = "''abc''"
      and cause = "''ECONNREFUSED''"] h2
  have b: "fst (get_redirect 50 ''abc'' store_down) = Reply 404 NotFoundPage" by simp
  from store_failure_surfacing [where now' = 50 and c' = "''abc''" and st' = store_flaky
      and r = row_old and ?st1.0 = "\<lparr>rows = [row_old], faults = [Some ''ETIMEOUT'']\<rparr>"
      and cause = "''ETIMEOUT''"] h3
  have c: "fst (get_redirect 50 ''abc'' store_flaky) = Reply 404 NotFoundPage" by simp
  from h1 h2 h3 a b c show ?thesis by simp
qed

text \<open>
  Claim C5 as stated fails: with the connection refused, the stats endpoint answers 404
  and not 500.
\<close>

theorem stats_store_failure_counterexample:
  "fst (getUrlStats ''abc'' store_down) = Inl (StoreFailure ''ECONNREFUSED'') \<and>
   fst (get_stats ''abc'' store_down) = Reply 404 (ErrorJson ''Not found'')"
  by code_simp


text \<open>
  Claim C6, as amended. A \<open>POST /api/shorten\<close> whose \<open>url\<close> is a string that, once trimmed,
  the URL constructor does not parse, or that contains \<open>localhost\<close> or
  \<open>azurewebsites.net\<close>, is answered 400 and the store is returned as it was. A URL
  that contains the service's base URL is among them whenever the base URL itself
  contains one of the two names, as the default base URL does.
\<close>

theorem invalid_url_rejected:
  assumes "body_url b = Some (JStr s)"
  shows "(\<not> parses (trim s) \<or> str_includes (trim s) ''localhost'' \<or>
            str_includes (trim s) ''azurewebsites.net'' \<longrightarrow>
          post_shorten parses env cands now (Some b) st = (Reply 400 (ErrorJson ''Invalid URL''), st)) \<and>
         (str_includes (BASE_URL env) ''localhost'' \<or>
            str_includes (BASE_URL env) ''azurewebsites.net'' \<longrightarrow>
          str_includes (trim s) (BASE_URL env) \<longrightarrow>
          post_shorten parses env cands now (Some b) st = (Reply 400 (ErrorJson ''Invalid URL''), st))"
proof -
  have invalid: "post_shorten parses env cands now (Some b) st = (Reply 400 (ErrorJson ''Invalid URL''), st)"
    if "\<not> isValidUrl parses (trim s)"
  proof (cases "s = []")
    case True
    with assms show ?thesis by (simp add: post_shorten_def trimmed_url_def)
  next
    case False
    with assms that show ?thesis by (simp add: post_shorten_def trimmed_url_def)
  qed
  show ?thesis
  proof (intro conjI impI)
    assume "\<not> parses (trim s) \<or> str_includes (trim s) ''localhost'' \<or>
            str_includes (trim s) ''azurewebsites.net''"
    then have "\<not> isValidUrl parses (trim s)" by (auto simp: isValidUrl_def)
    then show "post_shorten parses env cands now (Some b) st = (Reply 400 (ErrorJson ''Invalid URL''), st)"
      by (rule invalid)
  next
    assume "str_includes (BASE_URL env) ''localhost'' \<or>
            str_includes (BASE_URL env) ''azurewebsites.net''"
      and "str_includes (trim s) (BASE_URL env)"
    then have "str_includes (trim s) ''localhost'' \<or> str_includes (trim s) ''azurewebsites.net''"
      by (auto dest: str_includes_trans)
    then have "\<not> isValidUrl parses (trim s)" by (auto simp: isValidUrl_def)
    then show "post_shorten parses env cands now (Some b) st = (Reply 400 (ErrorJson ''Invalid URL''), st)"
      by (rule invalid)
  qed
qed

text \<open>
  A string that is no URL, and a URL on the base host of a service deployed on Azure.
\<close>

theorem invalid_url_rejected_witness:
  "\<not> simple_https_url (trim ''not a url'') \<and>
   post_shorten simple_https_url env_short [''q7''] 5
     (Some \<lparr>body_url = Some (JStr ''not a url''), body_expires_at = None\<rparr>) store_empty =
     (Reply 400 (ErrorJson ''Invalid URL''), store_empty) \<and>
   simple_https_url (trim ''https://myapp.azurewebsites.net/x'') \<and>
   str_includes (BASE_URL env_azure) ''azurewebsites.net'' \<and>
   str_includes (trim ''https://myapp.azurewebsites.net/x'') (BASE_URL env_azure) \<and>
   post_shorten simple_https_url env_azure [''q7''] 5
     (Some \<lparr>body_url = Some (JStr ''https://myapp.azurewebsites.net/x''), body_expires_at = None\<rparr>)
     store_empty = (Reply 400 (ErrorJson ''Invalid URL''), store_empty)"
proof -
  have h: "\<not> simple_https_url (trim ''not a url'')"
    "simple_https_url (trim ''https://myapp.azurewebsites.net/x'')"
    "str_includes (BASE_URL env_azure) ''azurewebsites.net''"
    "str_includes (trim ''https://myapp.azurewebsites.net/x'') (BASE_URL env_azure)"
    by code_simp+
  from invalid_url_rejected [of "\<lparr>body_url = Some (JStr ''not a url''), body_expires_at = None\<rparr>"
      "''not a url''" simple_https_url env_short "[''q7'']" 5 store_empty]
    invalid_url_rejected [of
      "\<lparr>body_url = Some (JStr ''https://myapp.azurewebsites.net/x''), body_expires_at = None\<rparr>"
      "''https://myapp.azurewebsites.net/x''" simple_https_url env_azure "[''q7'']" 5 store_empty]
    h show ?thesis by simp
qed

text \<open>
  Claim C6 as stated fails: a service whose base URL is \<open>https://sho.rt\<close> accepts a URL
  on its own host and stores a record for it.
\<close>

theorem own_host_accepted_counterexample:
  "simple_https_url ''https://sho.rt/abc'' \<and>
   BASE_URL env_short = ''https://sho.rt'' \<and>
   post_shorten simple_https_url env_short [''q7''] 5
     (Some \<lparr>body_url = Some (JStr ''https://sho.rt/abc''), body_expires_at = None\<rparr>) store_empty =
   (Reply 200 (ShortenJson ''https://sho.rt/q7'' ''q7''),
    \<lparr>rows = [\<lparr>short_code = ''q7'', original_url = ''https://sho.rt/abc'', click_count = 0,
        created_at = 5, expires_at = None\<rparr>], faults = []\<rparr>)"
  by code_simp

text \<open>
  Claim C7. \<open>GET /api/stats/c\<close> answers 404 when no record has the code \<open>c\<close> (the
  service failing with \<open>NotFound\<close>); when a record \<open>r\<close> has it and the store answers,
  the reply is 200 with the five fields of \<open>r\<close>. Neither the handler nor the service
  takes the clock, and nothing is asked of \<open>expires_at r\<close>: an expired record is
  reported like a live one. The table is never changed.
\<close>

theorem stats_snapshot:
  "(find_by_code c (rows st) = None \<longrightarrow>
      fst (get_stats c st) = Reply 404 (ErrorJson ''Not found'')) \<and>
   (quiet 1 st \<longrightarrow> find_by_code c (rows st) = None \<longrightarrow>
      fst (getUrlStats c st) = Inl NotFound) \<and>
   (quiet 1 st \<longrightarrow> find_by_code c (rows st) = Some r \<longrightarrow>
      fst (getUrlStats c st) = Inr r \<and>
      fst (get_stats c st) =
        Reply 200 (StatsJson \<lparr>short_code = c, original_url = original_url r,
          click_count = click_count r, created_at = created_at r,
          expires_at = expires_at r\<rparr>)) \<and>
   rows (snd (get_stats c st)) = rows st"
proof (intro conjI impI)
  assume "find_by_code c (rows st) = None"
  then show "fst (get_stats c st) = Reply 404 (ErrorJson ''Not found'')"
    by (cases st rule: round_trip_cases) (auto simp: get_stats_def getUrlStats_def)
next
  assume "quiet 1 st" "find_by_code c (rows st) = None"
  then show "fst (getUrlStats c st) = Inl NotFound"
    by (auto simp: getUrlStats_def elim!: quiet_round_trip [of 0 st, simplified])
next
  assume q: "quiet 1 st" and f: "find_by_code c (rows st) = Some r"
  from f have "short_code r = c" by (simp add: find_by_code_Some)
  then have "r = \<lparr>short_code = c, original_url = original_url r,
      click_count = click_count r, created_at = created_at r, expires_at = expires_at r\<rparr>"
    by simp
  with q f show "fst (getUrlStats c st) = Inr r"
    by (auto simp: getUrlStats_def elim!: quiet_round_trip [of 0 st, simplified])
  then show "fst (get_stats c st) =
        Reply 200 (StatsJson \<lparr>short_code = c, original_url = original_url r,
          click_count = click_count r, created_at = created_at r,
          expires_at = expires_at r\<rparr>)"
    using \<open>r = _\<close> by (cases "getUrlStats c st") (auto simp: get_stats_def)
next
  show "rows (snd (get_stats c st)) = rows st" by (rule get_stats_rows)
qed

text \<open>
  An unknown code, and the code of a record that expired at instant 100.
\<close>

theorem stats_snapshot_witness:
  "quiet 1 store_old \<and>
   find_by_code ''zzz'' (rows store_old) = None \<and>
   fst (get_stats ''zzz'' store_old) = Reply 404 (ErrorJson ''Not found'') \<and>
   fst (getUrlStats ''zzz'' store_old) = Inl NotFound \<and>
   find_by_code ''abc'' (rows store_old) = Some row_old \<and>
   fst (get_stats ''abc'' store_old) =
     Reply 200 (StatsJson \<lparr>short_code = ''abc'', original_url = ''https://example.com/a/b'',
       click_count = 3, created_at = 0, expires_at = Some 100\<rparr>)"
proof -
  have q: "quiet 1 store_old" by code_simp
  have n: "find_by_code ''zzz'' (rows store_old) = None" by code_simp
  have f: "find_by_code ''abc'' (rows store_old) = Some row_old" by code_simp
  from stats_snapshot [of "''zzz''" store_old row_old] q n
  have 1: "fst (get_stats ''zzz'' store_old) = Reply 404 (ErrorJson ''Not found'') \<and>
     fst (getUrlStats ''zzz'' store_old) = Inl NotFound" by simp
  from stats_snapshot [of "''abc''" store_old row_old] q f
  have 2: "fst (get_stats ''abc'' store_old) =
     Reply 200 (StatsJson \<lparr>short_code = ''abc'', original_url = original_url row_old,
       click_count = click_count row_old, created_at = created_at row_old,
       expires_at = expires_at row_old\<rparr>)" by simp
  from q n f 1 2 show ?thesis by (simp add: row_old_def)
qed

text \<open>
  Claim C8. Every 200 reply of \<open>POST /api/shorten\<close> carries a \<open>short_code\<close> and a
  \<open>short_url\<close>, and the \<open>short_url\<close> is the base URL, a slash and the \<open>short_code\<close>.
\<close>

theorem shorten_reply_short_url:
  assumes "fst (post_shorten parses env cands now req_body st) = Reply 200 bd"
  shows "\<exists>c. bd = ShortenJson (BASE_URL env @ ''/'' @ c) c"
proof (cases req_body)
  case None
  with assms show ?thesis by (simp add: post_shorten_def)
next
  case (Some b)
  with assms obtain st' where "post_shorten parses env cands now (Some b) st = (Reply 200 bd, st')"
    by (cases "post_shorten parses env cands now (Some b) st") simp
  then show ?thesis by (cases rule: post_shorten_200) simp
qed

text \<open>
  The scenario of the spec on an empty store, with the base URL \<open>https://sho.rt\<close>.
\<close>

theorem shorten_reply_short_url_witness:
  "fst (post_shorten simple_https_url \<lparr>env_PORT = None, env_BASE_URL = Some ''https://sho.rt''\<rparr>
      [''q7''] 5 (Some \<lparr>body_url = Some (JStr ''https://example.com/a/b''), body_expires_at = None\<rparr>)
      \<lparr>rows = [], faults = []\<rparr>) = Reply 200 (ShortenJson ''https://sho.rt/q7'' ''q7'') \<and>
   (\<exists>c. ShortenJson ''https://sho.rt/q7'' ''q7'' =
      ShortenJson (BASE_URL \<lparr>env_PORT = None, env_BASE_URL = Some ''https://sho.rt''\<rparr> @ ''/'' @ c) c)"
proof -
  have h: "fst (post_shorten simple_https_url
      \<lparr>env_PORT = None, env_BASE_URL = Some ''https://sho.rt''\<rparr>
      [''q7''] 5 (Some \<lparr>body_url = Some (JStr ''https://example.com/a/b''), body_expires_at = None\<rparr>)
      \<lparr>rows = [], faults = []\<rparr>) = Reply 200 (ShortenJson ''https://sho.rt/q7'' ''q7'')"
    by code_simp
  from shorten_reply_short_url [OF h] h show ?thesis by simp
qed

text \<open>
  Claim C9, as amended. For every string \<open>s\<close>, \<open>GET /api/qr/s\<close> does not consult the store:
  it hands the store back untouched and its reply is the same whatever the table and
  the connection are, so that unknown and expired codes are served like live ones.
  When the base URL, a slash and \<open>s\<close> are within what a QR code can hold, the reply is
  the PNG of the QR code of that text.
\<close>

theorem qr_without_lookup:
  "snd (handle parses fits env (GetQr s) st) = st \<and>
   fst (handle parses fits env (GetQr s) st) = fst (handle parses fits env (GetQr s) st') \<and>
   (fits (BASE_URL env @ ''/'' @ s) \<longrightarrow>
      handle parses fits env (GetQr s) st = (Reply 200 (QrPng (BASE_URL env @ ''/'' @ s)), st))"
  by (simp add: get_qr_def Let_def)

text \<open>
  An unknown code asked of a store that refuses connections, and the code of the record
  that expired at instant 100.
\<close>

theorem qr_without_lookup_witness:
  "fits_bytes (BASE_URL env_short @ ''/'' @ ''zzz'') \<and>
   find_by_code ''zzz'' (rows store_down) = None \<and>
   handle simple_https_url fits_bytes env_short (GetQr ''zzz'') store_down =
     (Reply 200 (QrPng ''https://sho.rt/zzz''), store_down) \<and>
   fits_bytes (BASE_URL env_short @ ''/'' @ ''abc'') \<and>
   find_by_code ''abc'' (rows store_old) = Some row_old \<and>
   expires_at row_old = Some 100 \<and>
   handle simple_https_url fits_bytes env_short (GetQr ''abc'') store_old =
     (Reply 200 (QrPng ''https://sho.rt/abc''), store_old)"
proof -
  have h: "fits_bytes (BASE_URL env_short @ ''/'' @ ''zzz'')"
    "fits_bytes (BASE_URL env_short @ ''/'' @ ''abc'')"
    "find_by_code ''zzz'' (rows store_down) = None"
    "find_by_code ''abc'' (rows store_old) = Some row_old"
    "expires_at row_old = Some 100"
    by code_simp+
  have b: "BASE_URL env_short = ''https://sho.rt''" by code_simp
  from qr_without_lookup [of simple_https_url fits_bytes env_short "''zzz''" store_down]
    qr_without_lookup [of simple_https_url fits_bytes env_short "''abc''" store_old] h b
  show ?thesis by simp
qed

text \<open>
  Claim C9 as stated fails: for a code of 2400 letters the text has 2415 characters, more
  than a QR code holds; the encoder's error leaves the handler and no image is sent.
\<close>

theorem qr_over_capacity_counterexample:
  "length (BASE_URL env_short @ ''/'' @ replicate 2400 (CHR ''a'')) = 2415 \<and>
   \<not> fits_bytes (BASE_URL env_short @ ''/'' @ replicate 2400 (CHR ''a'')) \<and>
   handle simple_https_url fits_bytes env_short (GetQr (replicate 2400 (CHR ''a''))) store_empty =
     (Uncaught, store_empty)"
  by (simp add: get_qr_def fits_bytes_def BASE_URL_def or_default_def env_short_def)

text \<open>
  Claim C10. A \<open>POST /api/shorten\<close> whose parsed body has no \<open>url\<close> field, or whose \<open>url\<close>
  is a string that trims to the empty string, is answered 400 and the store is returned
  as it was: the table is unchanged and no round trip was made, whatever the state of
  the connection. A request in which no body was parsed has no \<open>url\<close> field either, but
  it is not answered 400: line 69 throws before the check of line 75 is reached, and
  the TypeError leaves the handler; the store is returned as it was there too.
\<close>

theorem shorten_without_url:
  "(body_url b = None \<or> (\<exists>s. body_url b = Some (JStr s) \<and> trim s = []) \<longrightarrow>
      post_shorten parses env cands now (Some b) st =
        (Reply 400 (ErrorJson ''Invalid URL''), st)) \<and>
   post_shorten parses env cands now None st = (Uncaught, st)"
proof (intro conjI impI)
  assume "body_url b = None \<or> (\<exists>s. body_url b = Some (JStr s) \<and> trim s = [])"
  then have "trimmed_url (body_url b) = Inr None \<or> trimmed_url (body_url b) = Inr (Some [])"
    by (auto simp: trimmed_url_def split: if_splits)
  then show "post_shorten parses env cands now (Some b) st =
      (Reply 400 (ErrorJson ''Invalid URL''), st)"
    by (auto simp: post_shorten_def)
next
  show "post_shorten parses env cands now None st = (Uncaught, st)"
    by (simp add: post_shorten_def)
qed

text \<open>
  A body whose \<open>url\<close> is two blanks and a request without a parsed body, both sent while
  the store refuses connections.
\<close>

theorem shorten_without_url_witness:
  "trim ''  '' = [] \<and>
   post_shorten simple_https_url env_default [''abc''] 0
     (Some \<lparr>body_url = Some (JStr ''  ''), body_expires_at = None\<rparr>) store_down =
     (Reply 400 (ErrorJson ''Invalid URL''), store_down) \<and>
   post_shorten simple_https_url env_default [''abc''] 0 None store_down = (Uncaught, store_down)"
proof -
  have t: "trim ''  '' = []" by code_simp
  then have h: "body_url \<lparr>body_url = Some (JStr ''  ''), body_expires_at = None\<rparr> = None \<or>
    (\<exists>s. body_url \<lparr>body_url = Some (JStr ''  ''), body_expires_at = None\<rparr> = Some (JStr s)
        \<and> trim s = [])"
    by simp
  from shorten_without_url [of "\<lparr>body_url = Some (JStr ''  ''), body_expires_at = None\<rparr>"
      simple_https_url env_default "[''abc'']" 0 store_down] h t
  show ?thesis by simp
qed

end
